theory Spec2Isabelle
  imports Main "HOL-Library.AList"
begin

section \<open>The data of index.ts\<close>

text \<open>
  An optional property of a TypeScript type (\<^verbatim>\<open>key?: string\<close>) is an \<open>option\<close>:
  \<open>None\<close> is \<^verbatim>\<open>undefined\<close>. Strings are \<open>string\<close>, with \<open>''''\<close> the empty string,
  the only falsy one.
\<close>

record ConfigFieldSpec =
  spec_key :: "string option"
  spec_default :: "string option"
  spec_description :: "string option"

text \<open>\<^verbatim>\<open>type ConfigValue = string | ConfigFieldSpec\<close>, told apart by \<^verbatim>\<open>typeof\<close>.\<close>

datatype ConfigValue = StringValue string | SpecValue ConfigFieldSpec

record ConfigResult =
  res_value :: "string option"
  matched :: bool
  res_description :: "string option"

record GetConfigOptions =
  detailedResult :: "bool option"

text \<open>
  What the code reads of an item of \<^verbatim>\<open>@1password/op-js\<close>: its \<^verbatim>\<open>id\<close> and its
  \<^verbatim>\<open>fields\<close>, and of a field its \<^verbatim>\<open>id\<close>, \<^verbatim>\<open>label\<close> and \<^verbatim>\<open>value\<close>. The code reads
  \<^verbatim>\<open>fields\<close>, \<^verbatim>\<open>label\<close> and \<^verbatim>\<open>value\<close> through \<^verbatim>\<open>?.\<close> and tests \<^verbatim>\<open>id\<close> of the item, so
  each of them may be missing.
\<close>

record Field =
  field_id :: string
  field_label :: "string option"
  field_value :: "string option"

record Item =
  item_id :: "string option"
  item_fields :: "Field list option"

text \<open>
  \<^verbatim>\<open>await onePItem.get(idOrName)\<close> either gives a value, which may be \<^verbatim>\<open>null\<close> or
  \<^verbatim>\<open>undefined\<close> (\<open>Resolved None\<close>), or throws, and then \<^verbatim>\<open>getConfig\<close> rejects with what
  was thrown. The retriever belongs to \<^verbatim>\<open>@1password/op-js\<close>, not to this repository; it
  is a parameter of \<open>getConfig\<close> below.
\<close>

datatype fetched = Resolved "Item option" | Rejected string

datatype error =
  Error string \<comment> \<open>\<^verbatim>\<open>throw new Error(message)\<close> of \<^verbatim>\<open>getConfig\<close> itself\<close>
| Propagated string \<comment> \<open>what the retriever threw\<close>

text \<open>
  A plain object is the list of its own enumerable properties, in the order
  \<^verbatim>\<open>Object.entries\<close> lists them. The argument \<^verbatim>\<open>keyOptions\<close> is given as this list;
  the keys of an object are distinct, which the properties that need it assume as
  \<open>distinct (map fst keyOptions)\<close>.
\<close>

type_synonym 'v js_object = "(string \<times> 'v) list"

datatype config =
  SimpleConfig "string option js_object"
| DetailedConfig "ConfigResult js_object"

section \<open>The operations\<close>

text \<open>
  \<^verbatim>\<open>obj[k] = v\<close> on an object made by \<^verbatim>\<open>{}\<close>: an own property \<^verbatim>\<open>k\<close> is overwritten
  where it stands, a new one is added last. The key \<^verbatim>\<open>__proto__\<close> is the exception:
  the assignment reaches the setter inherited from \<^verbatim>\<open>Object.prototype\<close>, which
  changes the prototype of \<^verbatim>\<open>obj\<close> (or does nothing, for a value that is no object)
  and creates no own property.
\<close>

definition setProperty :: "string \<Rightarrow> 'v \<Rightarrow> 'v js_object \<Rightarrow> 'v js_object" where
  "setProperty k v obj = (if k = ''__proto__'' then obj else AList.update k v obj)"

text \<open>
  \<^verbatim>\<open>item.fields?.find(f => f.id === fieldId ||
       f.label?.toLowerCase() === fieldId.toLowerCase())?.value\<close>

  \<^verbatim>\<open>String.prototype.toLowerCase\<close> belongs to the language and maps all of Unicode. It
  is the parameter \<open>toLowerCase\<close> of this function and of all that call it, so every
  property below holds of whatever function it is. Strings are otherwise only compared
  and tested for being empty.
\<close>

definition getFieldValue :: "(string \<Rightarrow> string) \<Rightarrow> Item \<Rightarrow> string \<Rightarrow> string option" where
  "getFieldValue toLowerCase item fieldId =
     (case item_fields item of
        None \<Rightarrow> None
      | Some fs \<Rightarrow>
          (case List.find (\<lambda>f. field_id f = fieldId \<or>
                   map_option toLowerCase (field_label f) = Some (toLowerCase fieldId)) fs of
             None \<Rightarrow> None
           | Some field \<Rightarrow> field_value field))"

text \<open>
  The three locals the callback of \<^verbatim>\<open>forEach\<close> sets from an entry of \<^verbatim>\<open>keyOptions\<close>.
  \<^verbatim>\<open>configValue.key || configKey\<close> takes \<^verbatim>\<open>configKey\<close> when the key is \<^verbatim>\<open>undefined\<close>
  or the empty string.
\<close>

definition fieldKey :: "string \<Rightarrow> ConfigValue \<Rightarrow> string" where
  "fieldKey configKey configValue =
     (case configValue of
        StringValue s \<Rightarrow> configKey
      | SpecValue sp \<Rightarrow>
          (case spec_key sp of
             None \<Rightarrow> configKey
           | Some k \<Rightarrow> if k = [] then configKey else k))"

definition defaultValue :: "ConfigValue \<Rightarrow> string option" where
  "defaultValue configValue =
     (case configValue of StringValue s \<Rightarrow> None | SpecValue sp \<Rightarrow> spec_default sp)"

definition description :: "ConfigValue \<Rightarrow> string option" where
  "description configValue =
     (case configValue of StringValue s \<Rightarrow> Some s | SpecValue sp \<Rightarrow> spec_description sp)"

text \<open>The record the callback stores under \<^verbatim>\<open>configKey\<close>.\<close>

definition resolveField ::
  "(string \<Rightarrow> string) \<Rightarrow> Item \<Rightarrow> string \<Rightarrow> ConfigValue \<Rightarrow> ConfigResult" where
  "resolveField toLowerCase item configKey configValue =
     (let foundValue = getFieldValue toLowerCase item (fieldKey configKey configValue);
          isMatched = (foundValue \<noteq> None);
          finalValue = (if isMatched then foundValue else defaultValue configValue)
      in \<lparr>res_value = finalValue, matched = isMatched,
          res_description = description configValue\<rparr>)"

definition notFoundMessage :: "string \<Rightarrow> string" where
  "notFoundMessage idOrName =
     ''Item with name or UUID '' @ [CHR 0x22] @ idOrName @ [CHR 0x22] @ '' not found.''"

text \<open>\<^verbatim>\<open>!onePConfigResult.id\<close>: the id is \<^verbatim>\<open>undefined\<close> or the empty string.\<close>

definition noId :: "Item \<Rightarrow> bool" where
  "noId item = (case item_id item of None \<Rightarrow> True | Some i \<Rightarrow> i = [])"

text \<open>
  \<^verbatim>\<open>options: GetConfigOptions = {}\<close> and \<^verbatim>\<open>const { detailedResult = false } = options\<close>:
  both defaults apply to \<^verbatim>\<open>undefined\<close>.
\<close>

definition wantsDetailed :: "GetConfigOptions option \<Rightarrow> bool" where
  "wantsDetailed options =
     (case options of
        None \<Rightarrow> False
      | Some opts \<Rightarrow> (case detailedResult opts of None \<Rightarrow> False | Some b \<Rightarrow> b))"

text \<open>
  The first \<^verbatim>\<open>forEach\<close>: starting from \<^verbatim>\<open>{}\<close>, each entry of \<^verbatim>\<open>keyOptions\<close> in turn
  assigns its record to \<^verbatim>\<open>detailedResult_tmp[configKey]\<close>.
\<close>

definition resolveAll ::
  "(string \<Rightarrow> string) \<Rightarrow> Item \<Rightarrow> ConfigValue js_object \<Rightarrow> ConfigResult js_object" where
  "resolveAll toLowerCase item keyOptions =
     fold (\<lambda>(configKey, configValue) detailedResult_tmp.
             setProperty configKey (resolveField toLowerCase item configKey configValue) detailedResult_tmp)
          keyOptions []"

text \<open>
  The second \<^verbatim>\<open>forEach\<close>: starting from \<^verbatim>\<open>{}\<close>, each entry of \<^verbatim>\<open>detailedResult_tmp\<close>
  in turn assigns its value to \<^verbatim>\<open>simpleResult[key]\<close>.
\<close>

definition simplify :: "ConfigResult js_object \<Rightarrow> string option js_object" where
  "simplify detailedResult_tmp =
     fold (\<lambda>(k, result) simpleResult. setProperty k (res_value result) simpleResult)
          detailedResult_tmp []"

definition getConfig ::
  "(string \<Rightarrow> string) \<Rightarrow> (string \<Rightarrow> fetched) \<Rightarrow> string \<Rightarrow> ConfigValue js_object
     \<Rightarrow> GetConfigOptions option \<Rightarrow> error + config" where
  "getConfig toLowerCase onePItem_get idOrName keyOptions options =
     (case onePItem_get idOrName of
        Rejected e \<Rightarrow> Inl (Propagated e)
      | Resolved None \<Rightarrow> Inl (Error (notFoundMessage idOrName))
      | Resolved (Some onePConfigResult) \<Rightarrow>
          if noId onePConfigResult
          then Inl (Error (notFoundMessage idOrName))
          else
            (let detailedResult_tmp = resolveAll toLowerCase onePConfigResult keyOptions
             in if wantsDetailed options
                then Inr (DetailedConfig detailedResult_tmp)
                else Inr (SimpleConfig (simplify detailedResult_tmp))))"

section \<open>Example data\<close>

text \<open>
  The examples are ASCII text. On ASCII text \<^verbatim>\<open>String.prototype.toLowerCase\<close> turns the
  letters \<^verbatim>\<open>A\<close> to \<^verbatim>\<open>Z\<close> into \<^verbatim>\<open>a\<close> to \<^verbatim>\<open>z\<close> and leaves every other character as
  it is; the examples are evaluated with this function for the parameter.
\<close>

definition asciiToLowerChar :: "char \<Rightarrow> char" where
  "asciiToLowerChar c =
     (case map_of (zip ''ABCDEFGHIJKLMNOPQRSTUVWXYZ'' ''abcdefghijklmnopqrstuvwxyz'') c of
        None \<Rightarrow> c
      | Some l \<Rightarrow> l)"

definition asciiToLowerCase :: "string \<Rightarrow> string" where
  "asciiToLowerCase s = map asciiToLowerChar s"

text \<open>The item and the field map of the worked example, and three items for the edge cases.\<close>

definition exampleItem :: Item where
  "exampleItem =
     \<lparr>item_id = Some ''abc123'', item_fields = Some
        [\<lparr>field_id = ''region-id'', field_label = Some ''region'',
            field_value = Some ''oss-cn-shanghai''\<rparr>,
         \<lparr>field_id = ''username'', field_label = None, field_value = Some ''AKID123''\<rparr>]\<rparr>"

definition exampleKeyOptions :: "ConfigValue js_object" where
  "exampleKeyOptions =
     [(''region'', StringValue ''OSS region''),
      (''access_key_id'',
         SpecValue \<lparr>spec_key = Some ''username'', spec_default = None, spec_description = None\<rparr>),
      (''bucket'',
         SpecValue \<lparr>spec_key = None, spec_default = Some ''dev-bucket'', spec_description = None\<rparr>)]"

definition shadowedItem :: Item where
  "shadowedItem =
     \<lparr>item_id = Some ''abc123'', item_fields = Some
        ([\<lparr>field_id = ''other'', field_label = Some ''Other'', field_value = Some ''o''\<rparr>]
         @ \<lparr>field_id = ''f1'', field_label = Some ''Token'', field_value = None\<rparr>
         # [\<lparr>field_id = ''token'', field_label = None, field_value = Some ''later''\<rparr>])\<rparr>"

definition fieldlessItem :: Item where
  "fieldlessItem = \<lparr>item_id = Some ''abc123'', item_fields = None\<rparr>"

definition redescribedKeyOptions :: "ConfigValue js_object" where
  "redescribedKeyOptions =
     [(''region'', StringValue ''Region of the bucket''),
      (''access_key_id'',
         SpecValue \<lparr>spec_key = Some ''username'', spec_default = None,
                      spec_description = Some ''OSS Access Key ID''\<rparr>),
      (''bucket'',
         SpecValue \<lparr>spec_key = None, spec_default = Some ''dev-bucket'',
                      spec_description = Some ''Storage bucket name''\<rparr>)]"

text \<open>
  A retriever over a small store: three items by name, one result without an id, one
  name for which the retriever throws, and nothing under any other name.
\<close>

definition exampleGet :: "string \<Rightarrow> fetched" where
  "exampleGet idOrName =
     (if idOrName = ''My OSS Config'' then Resolved (Some exampleItem)
      else if idOrName = ''Shadowed'' then Resolved (Some shadowedItem)
      else if idOrName = ''Fieldless'' then Resolved (Some fieldlessItem)
      else if idOrName = ''No id'' then Resolved (Some \<lparr>item_id = None, item_fields = Some []\<rparr>)
      else if idOrName = ''Signed out'' then Rejected ''not signed in''
      else Resolved None)"

section \<open>Field maps that differ in their descriptions only\<close>

text \<open>
  The relation of the property on descriptions, in its words: two specifications have
  the same \<^verbatim>\<open>key\<close> and the same \<^verbatim>\<open>default\<close>, whatever their descriptions. A bare string
  is all description: it has neither a key nor a default.
\<close>

fun sameButDescription :: "ConfigValue \<Rightarrow> ConfigValue \<Rightarrow> bool" where
  "sameButDescription (StringValue s) (StringValue t) = True"
| "sameButDescription (SpecValue a) (SpecValue b) =
     (spec_key a = spec_key b \<and> spec_default a = spec_default b)"
| "sameButDescription (StringValue s) (SpecValue b) = (spec_key b = None \<and> spec_default b = None)"
| "sameButDescription (SpecValue a) (StringValue t) = (spec_key a = None \<and> spec_default a = None)"

section \<open>Assignments to a plain object\<close>

text \<open>
  Both loops are a run of assignments \<^verbatim>\<open>obj[k] = g(k, x)\<close> over a list of entries. The
  keys such a run leaves are the earlier keys and the keys of the entries other than
  \<^verbatim>\<open>__proto__\<close>, each once; over entries with distinct, new keys it appends one
  property for each entry.
\<close>

lemma setProperty_keys:
  "map fst (setProperty k v obj) =
     (if k = ''__proto__'' \<or> k \<in> set (map fst obj) then map fst obj else map fst obj @ [k])"
  by (simp add: setProperty_def update_keys)

lemma setProperty_fresh:
  "k \<noteq> ''__proto__'' \<Longrightarrow> k \<notin> fst ` set obj \<Longrightarrow> setProperty k v obj = obj @ [(k, v)]"
  by (induction obj) (auto simp: setProperty_def)

lemma assign_all_keys:
  "fst ` set (fold (\<lambda>(k, x). setProperty k (g k x)) kvs acc) =
     fst ` set acc \<union> (fst ` set kvs - {''__proto__''})"
proof (induction kvs arbitrary: acc)
  case Nil
  then show ?case by simp
next
  case (Cons p kvs)
  obtain k x where p: "p = (k, x)" by (cases p)
  show ?case
  proof -
    have "fst ` set (setProperty k (g k x) acc) =
            (if k = ''__proto__'' then fst ` set acc else insert k (fst ` set acc))"
      using setProperty_keys [of k "g k x" acc, THEN arg_cong, of set] by auto
    then show ?thesis
      unfolding p using Cons.IH [of "setProperty k (g k x) acc"] by auto
  qed
qed

lemma assign_all_distinct:
  "distinct (map fst acc) \<Longrightarrow> distinct (map fst (fold (\<lambda>(k, x). setProperty k (g k x)) kvs acc))"
proof (induction kvs arbitrary: acc)
  case Nil
  then show ?case by simp
next
  case (Cons p kvs)
  obtain k x where p: "p = (k, x)" by (cases p)
  have "distinct (map fst (setProperty k (g k x) acc))"
    using Cons.prems by (simp add: setProperty_keys)
  then show ?case
    unfolding p using Cons.IH [of "setProperty k (g k x) acc"] by simp
qed

lemma assign_all_fresh:
  "distinct (map fst acc @ map fst kvs) \<Longrightarrow>
   fold (\<lambda>(k, x). setProperty k (g k x)) kvs acc =
     acc @ map (\<lambda>(k, x). (k, g k x)) (filter (\<lambda>(k, x). k \<noteq> ''__proto__'') kvs)"
proof (induction kvs arbitrary: acc)
  case Nil
  then show ?case by simp
next
  case (Cons p kvs)
  obtain k x where p: "p = (k, x)" by (cases p)
  show ?case
  proof (cases "k = ''__proto__''")
    case True
    have "distinct (map fst acc @ map fst kvs)" using Cons.prems by (simp add: p)
    from Cons.IH [OF this] show ?thesis by (simp add: p True setProperty_def)
  next
    case False
    have fresh: "k \<notin> fst ` set acc" using Cons.prems by (auto simp: p)
    have step: "setProperty k (g k x) acc = acc @ [(k, g k x)]"
      using False fresh by (rule setProperty_fresh)
    have "distinct (map fst (acc @ [(k, g k x)]) @ map fst kvs)"
      using Cons.prems by (auto simp: p)
    from Cons.IH [OF this] show ?thesis by (simp add: p False step)
  qed
qed

lemma resolveAll_keys:
  "fst ` set (resolveAll toLowerCase item keyOptions) = fst ` set keyOptions - {''__proto__''}"
  unfolding resolveAll_def using assign_all_keys [of "resolveField toLowerCase item" keyOptions "[]"] by simp

lemma resolveAll_distinct: "distinct (map fst (resolveAll toLowerCase item keyOptions))"
  unfolding resolveAll_def using assign_all_distinct [of "[]" "resolveField toLowerCase item" keyOptions] by simp

lemma resolveAll_distinct_input:
  "distinct (map fst keyOptions) \<Longrightarrow>
   resolveAll toLowerCase item keyOptions =
     map (\<lambda>(k, cv). (k, resolveField toLowerCase item k cv)) (filter (\<lambda>(k, cv). k \<noteq> ''__proto__'') keyOptions)"
  unfolding resolveAll_def using assign_all_fresh [of "[]" keyOptions "resolveField toLowerCase item"] by simp

lemma simplify_projection:
  assumes "distinct (map fst d)" and "''__proto__'' \<notin> set (map fst d)"
  shows "simplify d = map (\<lambda>(k, r). (k, res_value r)) d"
proof -
  have "filter (\<lambda>(k, x). k \<noteq> ''__proto__'') d = d"
    using assms(2) by (force simp: filter_id_conv)
  then show ?thesis
    unfolding simplify_def
    using assign_all_fresh [of "[]" d "\<lambda>k r. res_value r"] assms(1) by simp
qed

lemma simplify_resolveAll:
  "simplify (resolveAll toLowerCase item keyOptions) = map (\<lambda>(k, r). (k, res_value r)) (resolveAll toLowerCase item keyOptions)"
  by (rule simplify_projection) (simp_all add: resolveAll_distinct resolveAll_keys)

lemma map_of_map_entry:
  "map_of (map (\<lambda>(k, x). (k, g k x)) xs) k = map_option (g k) (map_of xs k)"
  by (induction xs) auto

lemma resolveAll_lookup:
  assumes "distinct (map fst keyOptions)"
  shows "map_of (resolveAll toLowerCase item keyOptions) ck =
           (if ck = ''__proto__'' then None
            else map_option (resolveField toLowerCase item ck) (map_of keyOptions ck))"
proof -
  have "map_of (filter (\<lambda>(k, cv). k \<noteq> ''__proto__'') keyOptions) ck =
          (if ck = ''__proto__'' then None else map_of keyOptions ck)"
    by (induction keyOptions) auto
  then show ?thesis
    by (simp add: resolveAll_distinct_input [OF assms] map_of_map_entry)
qed

lemma resolveAll_entry:
  assumes "distinct (map fst keyOptions)" and "(ck, cv) \<in> set keyOptions" and "ck \<noteq> ''__proto__''"
  shows "map_of (resolveAll toLowerCase item keyOptions) ck = Some (resolveField toLowerCase item ck cv)"
  using assms by (simp add: resolveAll_lookup)

lemma set_setProperty: "set (setProperty k v obj) \<subseteq> insert (k, v) (set obj)"
  by (induction obj) (auto simp: setProperty_def)

lemma assign_all_from_entry:
  "(k, r) \<in> set (fold (\<lambda>(k, x). setProperty k (g k x)) kvs acc) \<Longrightarrow>
   (k, r) \<in> set acc \<or> (\<exists>x. (k, x) \<in> set kvs \<and> r = g k x)"
proof (induction kvs arbitrary: acc)
  case Nil
  then show ?case by simp
next
  case (Cons p kvs)
  obtain k' x' where p: "p = (k', x')" by (cases p)
  from Cons.prems have "(k, r) \<in> set (fold (\<lambda>(k, x). setProperty k (g k x)) kvs (setProperty k' (g k' x') acc))"
    by (simp add: p)
  from Cons.IH [OF this] show ?case
    using set_setProperty [of k' "g k' x'" acc] by (auto simp: p)
qed

lemma resolveAll_from_entry:
  assumes "(k, r) \<in> set (resolveAll toLowerCase item keyOptions)"
  shows "\<exists>cv. (k, cv) \<in> set keyOptions \<and> r = resolveField toLowerCase item k cv"
  using assms assign_all_from_entry [of k r "resolveField toLowerCase item" keyOptions "[]"]
  by (simp add: resolveAll_def)

lemma getConfig_detailed:
  assumes "onePItem_get idOrName = Resolved (Some item)" and "item_id item = Some i" and "i \<noteq> []"
  shows "getConfig toLowerCase onePItem_get idOrName keyOptions (Some \<lparr>detailedResult = Some True\<rparr>) =
           Inr (DetailedConfig (resolveAll toLowerCase item keyOptions))"
  using assms by (simp add: getConfig_def noId_def wantsDetailed_def)

lemma getConfig_simple:
  assumes "onePItem_get idOrName = Resolved (Some item)" and "item_id item = Some i" and "i \<noteq> []"
    and "options \<in> {None, Some \<lparr>detailedResult = None\<rparr>, Some \<lparr>detailedResult = Some False\<rparr>}"
  shows "getConfig toLowerCase onePItem_get idOrName keyOptions options =
           Inr (SimpleConfig (map (\<lambda>(k, r). (k, res_value r)) (resolveAll toLowerCase item keyOptions)))"
  using assms by (auto simp: getConfig_def noId_def wantsDetailed_def simplify_resolveAll)

lemma find_first:
  assumes "\<forall>g\<in>set pre. \<not> P g" and "P f"
  shows "List.find P (pre @ f # post) = Some f"
  using assms by (induction pre) auto

lemma find_none: "\<forall>g\<in>set fs. \<not> P g \<Longrightarrow> List.find P fs = None"
  by (simp add: find_None_iff)

section \<open>Field matching\<close>

text \<open>
  C1. Field matching scans the field list of the item in order and takes the first field
  whose identifier is the lookup key or whose label, lower-cased, is the lookup key
  lower-cased; the lookup gives the value of that field, whatever comes after it. With no
  such field, or no field list, it gives nothing. A declared field is matched exactly when
  the lookup gives a defined value, so a first match without a value is not matched even
  when a later field with a value matches too. This holds for every lower-casing function.
\<close>

theorem getFieldValue_first_match:
  "(item_fields item = Some (pre @ f # post)
      \<and> (\<forall>g\<in>set pre. field_id g \<noteq> k
             \<and> (\<forall>l. field_label g = Some l \<longrightarrow> toLowerCase l \<noteq> toLowerCase k))
      \<and> (field_id f = k \<or> (\<exists>l. field_label f = Some l \<and> toLowerCase l = toLowerCase k))
    \<longrightarrow> getFieldValue toLowerCase item k = field_value f)
   \<and> ((\<forall>fs. item_fields item = Some fs \<longrightarrow>
          (\<forall>g\<in>set fs. field_id g \<noteq> k
             \<and> (\<forall>l. field_label g = Some l \<longrightarrow> toLowerCase l \<noteq> toLowerCase k)))
        \<longrightarrow> getFieldValue toLowerCase item k = None)
   \<and> matched (resolveField toLowerCase item configKey configValue) =
        (getFieldValue toLowerCase item (fieldKey configKey configValue) \<noteq> None)"
proof (intro conjI impI)
  let ?P = "\<lambda>f. field_id f = k \<or> map_option toLowerCase (field_label f) = Some (toLowerCase k)"
  assume a: "item_fields item = Some (pre @ f # post)
      \<and> (\<forall>g\<in>set pre. field_id g \<noteq> k
             \<and> (\<forall>l. field_label g = Some l \<longrightarrow> toLowerCase l \<noteq> toLowerCase k))
      \<and> (field_id f = k \<or> (\<exists>l. field_label f = Some l \<and> toLowerCase l = toLowerCase k))"
  have "\<forall>g\<in>set pre. \<not> ?P g" using a by auto
  moreover have "?P f" using a by auto
  ultimately have "List.find ?P (pre @ f # post) = Some f" by (rule find_first)
  then show "getFieldValue toLowerCase item k = field_value f"
    using a by (simp add: getFieldValue_def)
next
  let ?P = "\<lambda>f. field_id f = k \<or> map_option toLowerCase (field_label f) = Some (toLowerCase k)"
  assume a: "\<forall>fs. item_fields item = Some fs \<longrightarrow>
          (\<forall>g\<in>set fs. field_id g \<noteq> k
             \<and> (\<forall>l. field_label g = Some l \<longrightarrow> toLowerCase l \<noteq> toLowerCase k))"
  show "getFieldValue toLowerCase item k = None"
  proof (cases "item_fields item")
    case None
    then show ?thesis by (simp add: getFieldValue_def)
  next
    case (Some fs)
    have "\<forall>g\<in>set fs. \<not> ?P g" using a Some by auto
    then have "List.find ?P fs = None" by (rule find_none)
    then show ?thesis using Some by (simp add: getFieldValue_def)
  qed
next
  show "matched (resolveField toLowerCase item configKey configValue) =
        (getFieldValue toLowerCase item (fieldKey configKey configValue) \<noteq> None)"
    by (simp add: resolveField_def Let_def)
qed

theorem getFieldValue_first_match_witness:
  "getFieldValue asciiToLowerCase shadowedItem ''token'' = None
   \<and> \<not> matched (resolveField asciiToLowerCase shadowedItem ''token'' (StringValue ''API token''))"
  using getFieldValue_first_match
    [where toLowerCase = asciiToLowerCase and item = shadowedItem and k = "''token''"
       and pre = "[\<lparr>field_id = ''other'', field_label = Some ''Other'', field_value = Some ''o''\<rparr>]"
       and f = "\<lparr>field_id = ''f1'', field_label = Some ''Token'', field_value = None\<rparr>"
       and post = "[\<lparr>field_id = ''token'', field_label = None, field_value = Some ''later''\<rparr>]"
       and configKey = "''token''" and configValue = "StringValue ''API token''"]
  by (simp add: shadowedItem_def fieldKey_def asciiToLowerCase_def asciiToLowerChar_def)

lemma getFieldValue_gap:
  assumes "\<forall>fs. item_fields item = Some fs \<longrightarrow>
            (\<forall>f\<in>set fs. (field_id f = k \<or> (\<exists>l. field_label f = Some l \<and> toLowerCase l = toLowerCase k))
               \<longrightarrow> field_value f = None)"
  shows "getFieldValue toLowerCase item k = None"
proof (cases "item_fields item")
  case None
  then show ?thesis by (simp add: getFieldValue_def)
next
  case (Some fs)
  let ?P = "\<lambda>f. field_id f = k \<or> map_option toLowerCase (field_label f) = Some (toLowerCase k)"
  show ?thesis
  proof (cases "List.find ?P fs")
    case None
    then show ?thesis using Some by (simp add: getFieldValue_def)
  next
    case (Some f)
    then have "f \<in> set fs" and "?P f"
      by (auto simp: find_Some_iff)
    then have "field_value f = None"
      using assms \<open>item_fields item = Some fs\<close> by auto
    then show ?thesis
      using Some \<open>item_fields item = Some fs\<close> by (simp add: getFieldValue_def)
  qed
qed

lemma resolveField_unmatched:
  "getFieldValue toLowerCase item (fieldKey configKey configValue) = None \<Longrightarrow>
   resolveField toLowerCase item configKey configValue =
     \<lparr>res_value = defaultValue configValue, matched = False,
      res_description = description configValue\<rparr>"
  by (simp add: resolveField_def)

section \<open>Fields that are not matched\<close>

text \<open>
  C2. When no field of the item that matches the lookup key of a declared field has a
  defined value, the resolved value is the default of the specification (nothing, for a
  bare string or a specification without a default) and the field is not matched. The
  call succeeds in both shapes, and the entry of the declared key in the result carries
  that value. This holds for every lower-casing function.
\<close>

theorem unmatched_field_takes_default:
  assumes fetched: "onePItem_get idOrName = Resolved (Some item)"
    and ident: "item_id item = Some i" "i \<noteq> []"
    and gap: "\<forall>fs. item_fields item = Some fs \<longrightarrow>
            (\<forall>f\<in>set fs. (field_id f = fieldKey configKey configValue
                 \<or> (\<exists>l. field_label f = Some l
                        \<and> toLowerCase l = toLowerCase (fieldKey configKey configValue)))
               \<longrightarrow> field_value f = None)"
    and dflt: "dflt = (case configValue of StringValue s \<Rightarrow> None | SpecValue sp \<Rightarrow> spec_default sp)"
  shows "res_value (resolveField toLowerCase item configKey configValue) = dflt
    \<and> \<not> matched (resolveField toLowerCase item configKey configValue)
    \<and> (\<exists>d. getConfig toLowerCase onePItem_get idOrName keyOptions (Some \<lparr>detailedResult = Some True\<rparr>)
               = Inr (DetailedConfig d)
          \<and> ((configKey, configValue) \<in> set keyOptions \<and> distinct (map fst keyOptions)
               \<and> configKey \<noteq> ''__proto__''
             \<longrightarrow> (\<exists>r. map_of d configKey = Some r \<and> res_value r = dflt \<and> \<not> matched r)))
    \<and> (\<exists>s. getConfig toLowerCase onePItem_get idOrName keyOptions None = Inr (SimpleConfig s)
          \<and> ((configKey, configValue) \<in> set keyOptions \<and> distinct (map fst keyOptions)
               \<and> configKey \<noteq> ''__proto__''
             \<longrightarrow> map_of s configKey = Some dflt))"
proof -
  let ?r = "resolveField toLowerCase item configKey configValue"
  have none: "getFieldValue toLowerCase item (fieldKey configKey configValue) = None"
    using gap by (rule getFieldValue_gap)
  have d: "dflt = defaultValue configValue"
    by (simp add: dflt defaultValue_def)
  have r: "?r = \<lparr>res_value = dflt, matched = False, res_description = description configValue\<rparr>"
    using resolveField_unmatched [OF none] by (simp add: d)
  have detailed: "getConfig toLowerCase onePItem_get idOrName keyOptions (Some \<lparr>detailedResult = Some True\<rparr>)
      = Inr (DetailedConfig (resolveAll toLowerCase item keyOptions))"
    using fetched ident by (rule getConfig_detailed)
  have simple: "getConfig toLowerCase onePItem_get idOrName keyOptions None
      = Inr (SimpleConfig (map (\<lambda>(k, r). (k, res_value r)) (resolveAll toLowerCase item keyOptions)))"
    using fetched ident by (rule getConfig_simple) simp
  have entry: "map_of (resolveAll toLowerCase item keyOptions) configKey = Some ?r"
    if "(configKey, configValue) \<in> set keyOptions \<and> distinct (map fst keyOptions)
          \<and> configKey \<noteq> ''__proto__''"
    using that by (simp add: resolveAll_entry)
  have sentry: "map_of (map (\<lambda>(k, r). (k, res_value r)) (resolveAll toLowerCase item keyOptions)) configKey
       = Some dflt"
    if "(configKey, configValue) \<in> set keyOptions \<and> distinct (map fst keyOptions)
          \<and> configKey \<noteq> ''__proto__''"
    using entry [OF that] r map_of_map_entry [of "\<lambda>k r. res_value r" "resolveAll toLowerCase item keyOptions" configKey]
    by simp
  show ?thesis
    using r detailed simple entry sentry by simp
qed

theorem unmatched_field_takes_default_witness:
  "(\<exists>d. getConfig asciiToLowerCase exampleGet ''My OSS Config'' exampleKeyOptions (Some \<lparr>detailedResult = Some True\<rparr>)
               = Inr (DetailedConfig d)
          \<and> (\<exists>r. map_of d ''bucket'' = Some r \<and> res_value r = Some ''dev-bucket'' \<and> \<not> matched r))
   \<and> (\<exists>s. getConfig asciiToLowerCase exampleGet ''My OSS Config'' exampleKeyOptions None = Inr (SimpleConfig s)
          \<and> map_of s ''bucket'' = Some (Some ''dev-bucket''))"
  using unmatched_field_takes_default
    [where toLowerCase = asciiToLowerCase and onePItem_get = exampleGet and idOrName = "''My OSS Config''" and item = exampleItem
       and i = "''abc123''" and configKey = "''bucket''"
       and configValue = "SpecValue \<lparr>spec_key = None, spec_default = Some ''dev-bucket'',
                                     spec_description = None\<rparr>"
       and dflt = "Some ''dev-bucket''" and keyOptions = exampleKeyOptions]
  by (simp add: exampleGet_def exampleItem_def exampleKeyOptions_def fieldKey_def
      asciiToLowerCase_def asciiToLowerChar_def)

section \<open>The lookup key\<close>

text \<open>
  C3, as amended. For a structured specification the lookup key is its \<^verbatim>\<open>key\<close> when that
  is present and not the empty string, and the declared key otherwise; the field is
  resolved against this lookup key, and the entry of the declared key in the detailed
  result is that resolution.
\<close>

theorem lookup_key_of_structured_spec:
  assumes lookupKey: "lookupKey = (case spec_key sp of
                         None \<Rightarrow> configKey
                       | Some k \<Rightarrow> if k = [] then configKey else k)"
    and fetched: "onePItem_get idOrName = Resolved (Some item)"
    and ident: "item_id item = Some i" "i \<noteq> []"
  shows "fieldKey configKey (SpecValue sp) = lookupKey
    \<and> resolveField toLowerCase item configKey (SpecValue sp) =
        \<lparr>res_value = (case getFieldValue toLowerCase item lookupKey of
                         None \<Rightarrow> spec_default sp | Some v \<Rightarrow> Some v),
         matched = (getFieldValue toLowerCase item lookupKey \<noteq> None),
         res_description = spec_description sp\<rparr>
    \<and> (\<exists>d. getConfig toLowerCase onePItem_get idOrName keyOptions (Some \<lparr>detailedResult = Some True\<rparr>)
               = Inr (DetailedConfig d)
          \<and> ((configKey, SpecValue sp) \<in> set keyOptions \<and> distinct (map fst keyOptions)
               \<and> configKey \<noteq> ''__proto__''
             \<longrightarrow> map_of d configKey = Some (resolveField toLowerCase item configKey (SpecValue sp))))"
proof -
  have k: "fieldKey configKey (SpecValue sp) = lookupKey"
    by (simp add: fieldKey_def lookupKey)
  have r: "resolveField toLowerCase item configKey (SpecValue sp) =
        \<lparr>res_value = (case getFieldValue toLowerCase item lookupKey of
                         None \<Rightarrow> spec_default sp | Some v \<Rightarrow> Some v),
         matched = (getFieldValue toLowerCase item lookupKey \<noteq> None),
         res_description = spec_description sp\<rparr>"
    by (simp add: resolveField_def k defaultValue_def description_def Let_def split: option.splits)
  have d: "getConfig toLowerCase onePItem_get idOrName keyOptions (Some \<lparr>detailedResult = Some True\<rparr>)
      = Inr (DetailedConfig (resolveAll toLowerCase item keyOptions))"
    using fetched ident by (rule getConfig_detailed)
  have e: "map_of (resolveAll toLowerCase item keyOptions) configKey
      = Some (resolveField toLowerCase item configKey (SpecValue sp))"
    if "(configKey, SpecValue sp) \<in> set keyOptions \<and> distinct (map fst keyOptions)
          \<and> configKey \<noteq> ''__proto__''"
    using that by (simp add: resolveAll_entry)
  have "\<exists>d. getConfig toLowerCase onePItem_get idOrName keyOptions (Some \<lparr>detailedResult = Some True\<rparr>)
               = Inr (DetailedConfig d)
          \<and> ((configKey, SpecValue sp) \<in> set keyOptions \<and> distinct (map fst keyOptions)
               \<and> configKey \<noteq> ''__proto__''
             \<longrightarrow> map_of d configKey = Some (resolveField toLowerCase item configKey (SpecValue sp)))"
    using d e by blast
  with k r show ?thesis by blast
qed

theorem lookup_key_of_structured_spec_witness:
  "fieldKey ''access_key_id''
      (SpecValue \<lparr>spec_key = Some ''username'', spec_default = None, spec_description = None\<rparr>)
     = ''username''
   \<and> (\<exists>d. getConfig asciiToLowerCase exampleGet ''My OSS Config'' exampleKeyOptions
             (Some \<lparr>detailedResult = Some True\<rparr>) = Inr (DetailedConfig d)
          \<and> map_of d ''access_key_id'' =
              Some (resolveField asciiToLowerCase exampleItem ''access_key_id''
                (SpecValue \<lparr>spec_key = Some ''username'', spec_default = None,
                             spec_description = None\<rparr>)))"
proof -
  have h1: "''username'' =
      (case spec_key \<lparr>spec_key = Some ''username'', spec_default = None, spec_description = None\<rparr> of
         None \<Rightarrow> ''access_key_id''
       | Some k \<Rightarrow> if k = [] then ''access_key_id'' else k)"
    by simp
  have h2: "exampleGet ''My OSS Config'' = Resolved (Some exampleItem)"
    by (simp add: exampleGet_def)
  have h3: "item_id exampleItem = Some ''abc123''"
    by (simp add: exampleItem_def)
  have h4: "''abc123'' \<noteq> []"
    by simp
  have h5: "(''access_key_id'',
        SpecValue \<lparr>spec_key = Some ''username'', spec_default = None, spec_description = None\<rparr>)
      \<in> set exampleKeyOptions \<and> distinct (map fst exampleKeyOptions)
      \<and> ''access_key_id'' \<noteq> ''__proto__''"
    by (simp add: exampleKeyOptions_def)
  show ?thesis
    using h5 lookup_key_of_structured_spec
          [where toLowerCase = asciiToLowerCase and onePItem_get = exampleGet and idOrName = "''My OSS Config''"
             and keyOptions = exampleKeyOptions, OF h1 h2 h3 h4]
    by blast
qed

text \<open>
  An empty \<^verbatim>\<open>key\<close> is present but is not the lookup key: with \<^verbatim>\<open>{ username: { key: '' } }\<close>
  the item has nothing under the empty key, and the field resolves to the value of the
  field \<^verbatim>\<open>username\<close>.
\<close>

theorem lookup_key_empty_alias_counterexample:
  "spec_key \<lparr>spec_key = Some [], spec_default = None, spec_description = None\<rparr> = Some []
   \<and> fieldKey ''username''
         (SpecValue \<lparr>spec_key = Some [], spec_default = None, spec_description = None\<rparr>) \<noteq> []
   \<and> getFieldValue asciiToLowerCase exampleItem [] = None
   \<and> getConfig asciiToLowerCase exampleGet ''My OSS Config''
         [(''username'',
           SpecValue \<lparr>spec_key = Some [], spec_default = None, spec_description = None\<rparr>)]
         (Some \<lparr>detailedResult = Some True\<rparr>)
       = Inr (DetailedConfig
           [(''username'',
             \<lparr>res_value = Some ''AKID123'', matched = True, res_description = None\<rparr>)])"
  by (simp add: getConfig_def exampleGet_def exampleItem_def noId_def wantsDetailed_def
      resolveAll_def setProperty_def resolveField_def getFieldValue_def fieldKey_def
      defaultValue_def description_def asciiToLowerCase_def asciiToLowerChar_def)

section \<open>The two shapes\<close>

text \<open>
  C4. For every identifier, field map and item fetched with an id, the detailed result is
  the map of the resolutions, and the simple result, for every way of not asking for the
  detailed one, is that same map with each entry projected to its value.
\<close>

theorem simple_is_projection_of_detailed:
  assumes fetched: "onePItem_get idOrName = Resolved (Some item)"
    and ident: "item_id item = Some i" "i \<noteq> []"
    and simple: "options \<in> {None, Some \<lparr>detailedResult = None\<rparr>, Some \<lparr>detailedResult = Some False\<rparr>}"
  shows "\<exists>d. getConfig toLowerCase onePItem_get idOrName keyOptions (Some \<lparr>detailedResult = Some True\<rparr>)
               = Inr (DetailedConfig d)
          \<and> d = resolveAll toLowerCase item keyOptions
          \<and> getConfig toLowerCase onePItem_get idOrName keyOptions options
               = Inr (SimpleConfig (map (\<lambda>(k, r). (k, res_value r)) d))"
proof -
  have "getConfig toLowerCase onePItem_get idOrName keyOptions (Some \<lparr>detailedResult = Some True\<rparr>)
      = Inr (DetailedConfig (resolveAll toLowerCase item keyOptions))"
    using fetched ident by (rule getConfig_detailed)
  moreover have "getConfig toLowerCase onePItem_get idOrName keyOptions options
      = Inr (SimpleConfig (map (\<lambda>(k, r). (k, res_value r)) (resolveAll toLowerCase item keyOptions)))"
    using fetched ident simple by (rule getConfig_simple)
  ultimately show ?thesis by simp
qed

theorem simple_is_projection_of_detailed_witness:
  "\<exists>d. getConfig asciiToLowerCase exampleGet ''My OSS Config'' exampleKeyOptions (Some \<lparr>detailedResult = Some True\<rparr>)
               = Inr (DetailedConfig d)
          \<and> getConfig asciiToLowerCase exampleGet ''My OSS Config'' exampleKeyOptions None
               = Inr (SimpleConfig (map (\<lambda>(k, r). (k, res_value r)) d))"
  using simple_is_projection_of_detailed
    [where toLowerCase = asciiToLowerCase and onePItem_get = exampleGet and idOrName = "''My OSS Config''" and item = exampleItem
       and i = "''abc123''" and options = None and keyOptions = exampleKeyOptions]
  by (simp add: exampleGet_def exampleItem_def)

section \<open>Items that are not found\<close>

text \<open>
  C5. When the retriever gives no item for the identifier, the call fails with the error
  whose message quotes the identifier, whatever the field map and the options are: there
  is no result object, and nothing of the field map is resolved.
\<close>

theorem missing_item_fails_whole_call:
  assumes "onePItem_get idOrName = Resolved None"
  shows "getConfig toLowerCase onePItem_get idOrName keyOptions options =
           Inl (Error (''Item with name or UUID '' @ [CHR 0x22] @ idOrName @ [CHR 0x22]
                         @ '' not found.''))"
  using assms by (simp add: getConfig_def notFoundMessage_def)

theorem missing_item_fails_whole_call_witness:
  "getConfig asciiToLowerCase exampleGet ''nothing'' exampleKeyOptions None =
     Inl (Error (''Item with name or UUID '' @ [CHR 0x22] @ ''nothing'' @ [CHR 0x22]
                   @ '' not found.''))"
  using missing_item_fails_whole_call
    [where toLowerCase = asciiToLowerCase and onePItem_get = exampleGet and idOrName = "''nothing''"
       and keyOptions = exampleKeyOptions and options = None]
  by (simp add: exampleGet_def)

text \<open>
  C10. With a retriever that returns, the call fails with the not-found error exactly when
  what was fetched is nothing or has no id (an id that is missing or empty), whatever the
  field map and the options are.
\<close>

theorem falsy_item_or_id_is_not_found:
  assumes "onePItem_get idOrName = Resolved fetchedItem"
  shows "getConfig toLowerCase onePItem_get idOrName keyOptions options = Inl (Error (notFoundMessage idOrName))
     \<longleftrightarrow> (fetchedItem = None
          \<or> (\<exists>item. fetchedItem = Some item \<and> (item_id item = None \<or> item_id item = Some [])))"
  using assms
  by (cases fetchedItem) (auto simp: getConfig_def noId_def Let_def split: option.splits)

theorem falsy_item_or_id_is_not_found_witness:
  "getConfig asciiToLowerCase exampleGet ''No id'' exampleKeyOptions (Some \<lparr>detailedResult = Some True\<rparr>)
     = Inl (Error (notFoundMessage ''No id''))"
  using falsy_item_or_id_is_not_found
    [where toLowerCase = asciiToLowerCase and onePItem_get = exampleGet and idOrName = "''No id''"
       and fetchedItem = "Some \<lparr>item_id = None, item_fields = Some []\<rparr>"
       and keyOptions = exampleKeyOptions and options = "Some \<lparr>detailedResult = Some True\<rparr>"]
  by (simp add: exampleGet_def)

text \<open>What the retriever throws is passed on; there is no result either.\<close>

lemma getConfig_rejected:
  "onePItem_get idOrName = Rejected e \<Longrightarrow>
   getConfig toLowerCase onePItem_get idOrName keyOptions options = Inl (Propagated e)"
  by (simp add: getConfig_def)

section \<open>The keys of the result\<close>

text \<open>
  C6. The keys of the result should be the keys of the field map. The field map below has
  the own keys \<^verbatim>\<open>__proto__\<close> and \<^verbatim>\<open>region\<close>; the result, in both shapes, has the key
  \<^verbatim>\<open>region\<close> only. The label of the first field of the item is the key \<^verbatim>\<open>region\<close> itself,
  so this holds whatever the lower-casing is.
\<close>

theorem proto_key_is_dropped:
  "getConfig toLowerCase exampleGet ''My OSS Config''
      [(''__proto__'', StringValue ''prototype''), (''region'', StringValue ''OSS region'')]
      (Some \<lparr>detailedResult = Some True\<rparr>)
     = Inr (DetailedConfig
         [(''region'', \<lparr>res_value = Some ''oss-cn-shanghai'', matched = True,
                        res_description = Some ''OSS region''\<rparr>)])
   \<and> getConfig toLowerCase exampleGet ''My OSS Config''
      [(''__proto__'', StringValue ''prototype''), (''region'', StringValue ''OSS region'')] None
     = Inr (SimpleConfig [(''region'', Some ''oss-cn-shanghai'')])"
  by (simp add: getConfig_def exampleGet_def exampleItem_def noId_def wantsDetailed_def
      resolveAll_def simplify_def setProperty_def resolveField_def getFieldValue_def fieldKey_def
      defaultValue_def description_def)

text \<open>
  Every other key is kept: the keys of the result, in both shapes, are the keys of the
  field map without \<^verbatim>\<open>__proto__\<close>, each once.
\<close>

lemma result_keys:
  assumes fetched: "onePItem_get idOrName = Resolved (Some item)"
    and ident: "item_id item = Some i" "i \<noteq> []"
  shows "\<exists>d s. getConfig toLowerCase onePItem_get idOrName keyOptions (Some \<lparr>detailedResult = Some True\<rparr>)
               = Inr (DetailedConfig d)
          \<and> getConfig toLowerCase onePItem_get idOrName keyOptions None = Inr (SimpleConfig s)
          \<and> fst ` set d = fst ` set keyOptions - {''__proto__''} \<and> distinct (map fst d)
          \<and> fst ` set s = fst ` set keyOptions - {''__proto__''} \<and> distinct (map fst s)"
proof -
  let ?d = "resolveAll toLowerCase item keyOptions"
  let ?s = "map (\<lambda>(k, r). (k, res_value r)) ?d"
  have d: "getConfig toLowerCase onePItem_get idOrName keyOptions (Some \<lparr>detailedResult = Some True\<rparr>)
      = Inr (DetailedConfig ?d)"
    using fetched ident by (rule getConfig_detailed)
  have s: "getConfig toLowerCase onePItem_get idOrName keyOptions None = Inr (SimpleConfig ?s)"
    using fetched ident by (rule getConfig_simple) simp
  have ks: "map fst ?s = map fst ?d"
    by (simp add: split_def)
  have "fst ` set ?s = fst ` set ?d"
    by (force simp: split_def)
  then have "fst ` set ?s = fst ` set keyOptions - {''__proto__''}" and "distinct (map fst ?s)"
    by (simp_all only: ks resolveAll_keys resolveAll_distinct)
  then show ?thesis
    using d s resolveAll_keys [of toLowerCase item keyOptions]
      resolveAll_distinct [of toLowerCase item keyOptions]
    by blast
qed

section \<open>Bare strings\<close>

text \<open>
  C7. A declared field whose specification is a bare string is looked up under the
  declared key, has no default, and has the string as its description: its resolution is
  the value found under the declared key, matched when that value is defined, with the
  string as description, and this is the entry of the declared key in the detailed result.
\<close>

theorem bare_string_spec:
  assumes fetched: "onePItem_get idOrName = Resolved (Some item)"
    and ident: "item_id item = Some i" "i \<noteq> []"
  shows "fieldKey configKey (StringValue s) = configKey
    \<and> defaultValue (StringValue s) = None
    \<and> resolveField toLowerCase item configKey (StringValue s) =
        \<lparr>res_value = getFieldValue toLowerCase item configKey,
         matched = (getFieldValue toLowerCase item configKey \<noteq> None),
         res_description = Some s\<rparr>
    \<and> (\<exists>d. getConfig toLowerCase onePItem_get idOrName keyOptions (Some \<lparr>detailedResult = Some True\<rparr>)
               = Inr (DetailedConfig d)
          \<and> ((configKey, StringValue s) \<in> set keyOptions \<and> distinct (map fst keyOptions)
               \<and> configKey \<noteq> ''__proto__''
             \<longrightarrow> map_of d configKey = Some (resolveField toLowerCase item configKey (StringValue s))))"
proof -
  have k: "fieldKey configKey (StringValue s) = configKey"
    by (simp add: fieldKey_def)
  have n: "defaultValue (StringValue s) = None"
    by (simp add: defaultValue_def)
  have r: "resolveField toLowerCase item configKey (StringValue s) =
        \<lparr>res_value = getFieldValue toLowerCase item configKey,
         matched = (getFieldValue toLowerCase item configKey \<noteq> None),
         res_description = Some s\<rparr>"
    by (simp add: resolveField_def k n description_def Let_def)
  have d: "getConfig toLowerCase onePItem_get idOrName keyOptions (Some \<lparr>detailedResult = Some True\<rparr>)
      = Inr (DetailedConfig (resolveAll toLowerCase item keyOptions))"
    using fetched ident by (rule getConfig_detailed)
  have e: "map_of (resolveAll toLowerCase item keyOptions) configKey
      = Some (resolveField toLowerCase item configKey (StringValue s))"
    if "(configKey, StringValue s) \<in> set keyOptions \<and> distinct (map fst keyOptions)
          \<and> configKey \<noteq> ''__proto__''"
    using that by (simp add: resolveAll_entry)
  have "\<exists>d. getConfig toLowerCase onePItem_get idOrName keyOptions (Some \<lparr>detailedResult = Some True\<rparr>)
               = Inr (DetailedConfig d)
          \<and> ((configKey, StringValue s) \<in> set keyOptions \<and> distinct (map fst keyOptions)
               \<and> configKey \<noteq> ''__proto__''
             \<longrightarrow> map_of d configKey = Some (resolveField toLowerCase item configKey (StringValue s)))"
    using d e by blast
  with k n r show ?thesis by blast
qed

theorem bare_string_spec_witness:
  "resolveField asciiToLowerCase exampleItem ''region'' (StringValue ''OSS region'') =
        \<lparr>res_value = getFieldValue asciiToLowerCase exampleItem ''region'',
         matched = (getFieldValue asciiToLowerCase exampleItem ''region'' \<noteq> None),
         res_description = Some ''OSS region''\<rparr>
    \<and> (\<exists>d. getConfig asciiToLowerCase exampleGet ''My OSS Config'' exampleKeyOptions
               (Some \<lparr>detailedResult = Some True\<rparr>) = Inr (DetailedConfig d)
          \<and> map_of d ''region'' = Some (resolveField asciiToLowerCase exampleItem ''region'' (StringValue ''OSS region'')))"
proof -
  have h1: "exampleGet ''My OSS Config'' = Resolved (Some exampleItem)"
    by (simp add: exampleGet_def)
  have h2: "item_id exampleItem = Some ''abc123''"
    by (simp add: exampleItem_def)
  have h3: "''abc123'' \<noteq> []"
    by simp
  have h4: "(''region'', StringValue ''OSS region'') \<in> set exampleKeyOptions
      \<and> distinct (map fst exampleKeyOptions) \<and> ''region'' \<noteq> ''__proto__''"
    by (simp add: exampleKeyOptions_def)
  show ?thesis
    using h4 bare_string_spec
          [where toLowerCase = asciiToLowerCase and onePItem_get = exampleGet and idOrName = "''My OSS Config''"
             and keyOptions = exampleKeyOptions, OF h1 h2 h3]
    by blast
qed

section \<open>Items without a field list\<close>

text \<open>
  C9. For an item whose field list is missing the call does not fail: every lookup gives
  nothing, and every declared field resolves to the default of its specification (nothing,
  for a bare string or a specification without a default) and is not matched. In both
  shapes the result has the keys of the field map other than \<^verbatim>\<open>__proto__\<close>, every entry is
  unmatched with the default of a declared specification of its key, and the entry of a
  declared key is the one of its own specification.
\<close>

theorem item_without_fields:
  assumes fetched: "onePItem_get idOrName = Resolved (Some item)"
    and ident: "item_id item = Some i" "i \<noteq> []"
    and fieldless: "item_fields item = None"
    and dflt: "dflt = (case configValue of StringValue s \<Rightarrow> None | SpecValue sp \<Rightarrow> spec_default sp)"
    and descr: "descr = (case configValue of
                          StringValue s \<Rightarrow> Some s | SpecValue sp \<Rightarrow> spec_description sp)"
  shows "getFieldValue toLowerCase item k = None
    \<and> resolveField toLowerCase item configKey configValue =
        \<lparr>res_value = dflt, matched = False, res_description = descr\<rparr>
    \<and> (\<exists>d. getConfig toLowerCase onePItem_get idOrName keyOptions
               (Some \<lparr>detailedResult = Some True\<rparr>) = Inr (DetailedConfig d)
          \<and> fst ` set d = fst ` set keyOptions - {''__proto__''}
          \<and> (\<forall>(k, r)\<in>set d. \<not> matched r
                \<and> (\<exists>cv. (k, cv) \<in> set keyOptions
                      \<and> res_value r = (case cv of StringValue s \<Rightarrow> None
                                         | SpecValue sp \<Rightarrow> spec_default sp)))
          \<and> ((configKey, configValue) \<in> set keyOptions \<and> distinct (map fst keyOptions)
               \<and> configKey \<noteq> ''__proto__''
             \<longrightarrow> map_of d configKey =
                   Some \<lparr>res_value = dflt, matched = False, res_description = descr\<rparr>))
    \<and> (\<exists>s. getConfig toLowerCase onePItem_get idOrName keyOptions None = Inr (SimpleConfig s)
          \<and> fst ` set s = fst ` set keyOptions - {''__proto__''}
          \<and> (\<forall>(k, v)\<in>set s. \<exists>cv. (k, cv) \<in> set keyOptions
                      \<and> v = (case cv of StringValue s \<Rightarrow> None | SpecValue sp \<Rightarrow> spec_default sp))
          \<and> ((configKey, configValue) \<in> set keyOptions \<and> distinct (map fst keyOptions)
               \<and> configKey \<noteq> ''__proto__''
             \<longrightarrow> map_of s configKey = Some dflt))"
proof -
  let ?d = "resolveAll toLowerCase item keyOptions"
  let ?s = "map (\<lambda>(k, r). (k, res_value r)) ?d"
  let ?declared = "(configKey, configValue) \<in> set keyOptions \<and> distinct (map fst keyOptions)
               \<and> configKey \<noteq> ''__proto__''"
  have none: "getFieldValue toLowerCase item k = None" for k
    using fieldless by (simp add: getFieldValue_def)
  have r: "resolveField toLowerCase item ck cv =
        \<lparr>res_value = (case cv of StringValue s \<Rightarrow> None | SpecValue sp \<Rightarrow> spec_default sp),
         matched = False,
         res_description = (case cv of StringValue s \<Rightarrow> Some s | SpecValue sp \<Rightarrow> spec_description sp)\<rparr>"
    for ck cv
    using resolveField_unmatched [OF none, of ck cv]
    by (simp add: defaultValue_def description_def)
  have r0: "resolveField toLowerCase item configKey configValue =
        \<lparr>res_value = dflt, matched = False, res_description = descr\<rparr>"
    using r [of configKey configValue] by (simp add: dflt descr)
  have detailed: "getConfig toLowerCase onePItem_get idOrName keyOptions
      (Some \<lparr>detailedResult = Some True\<rparr>) = Inr (DetailedConfig ?d)"
    using fetched ident by (rule getConfig_detailed)
  have simple: "getConfig toLowerCase onePItem_get idOrName keyOptions None = Inr (SimpleConfig ?s)"
    using fetched ident by (rule getConfig_simple) simp
  have dkeys: "fst ` set ?d = fst ` set keyOptions - {''__proto__''}"
    by (rule resolveAll_keys)
  have "fst ` set ?s = fst ` set ?d"
    by (force simp: split_def)
  then have skeys: "fst ` set ?s = fst ` set keyOptions - {''__proto__''}"
    by (simp only: dkeys)
  have entries: "\<not> matched r \<and> (\<exists>cv. (k, cv) \<in> set keyOptions
        \<and> res_value r = (case cv of StringValue s \<Rightarrow> None | SpecValue sp \<Rightarrow> spec_default sp))"
    if "(k, r) \<in> set ?d" for k r
  proof -
    from resolveAll_from_entry [OF that] obtain cv
      where "(k, cv) \<in> set keyOptions" and "r = resolveField toLowerCase item k cv" by blast
    then show ?thesis using r [of k cv] by auto
  qed
  have dall: "\<forall>(k, r)\<in>set ?d. \<not> matched r
                \<and> (\<exists>cv. (k, cv) \<in> set keyOptions
                      \<and> res_value r = (case cv of StringValue s \<Rightarrow> None
                                         | SpecValue sp \<Rightarrow> spec_default sp))"
    using entries by blast
  have sall: "\<forall>(k, v)\<in>set ?s. \<exists>cv. (k, cv) \<in> set keyOptions
                      \<and> v = (case cv of StringValue s \<Rightarrow> None | SpecValue sp \<Rightarrow> spec_default sp)"
    using entries by fastforce
  have dentry: "map_of ?d configKey = Some \<lparr>res_value = dflt, matched = False, res_description = descr\<rparr>"
    if ?declared
  proof -
    have "map_of ?d configKey = Some (resolveField toLowerCase item configKey configValue)"
      using that by (simp add: resolveAll_entry)
    then show ?thesis by (simp only: r0)
  qed
  have sentry: "map_of ?s configKey = Some dflt" if ?declared
    using dentry [OF that] map_of_map_entry [of "\<lambda>k r. res_value r" ?d configKey] by simp
  have D: "\<exists>d. getConfig toLowerCase onePItem_get idOrName keyOptions
               (Some \<lparr>detailedResult = Some True\<rparr>) = Inr (DetailedConfig d)
          \<and> fst ` set d = fst ` set keyOptions - {''__proto__''}
          \<and> (\<forall>(k, r)\<in>set d. \<not> matched r
                \<and> (\<exists>cv. (k, cv) \<in> set keyOptions
                      \<and> res_value r = (case cv of StringValue s \<Rightarrow> None
                                         | SpecValue sp \<Rightarrow> spec_default sp)))
          \<and> (?declared \<longrightarrow> map_of d configKey =
                   Some \<lparr>res_value = dflt, matched = False, res_description = descr\<rparr>)"
    by (rule exI [of _ ?d], intro conjI impI, rule detailed, rule dkeys, rule dall, erule dentry)
  have S: "\<exists>s. getConfig toLowerCase onePItem_get idOrName keyOptions None = Inr (SimpleConfig s)
          \<and> fst ` set s = fst ` set keyOptions - {''__proto__''}
          \<and> (\<forall>(k, v)\<in>set s. \<exists>cv. (k, cv) \<in> set keyOptions
                      \<and> v = (case cv of StringValue s \<Rightarrow> None | SpecValue sp \<Rightarrow> spec_default sp))
          \<and> (?declared \<longrightarrow> map_of s configKey = Some dflt)"
    by (rule exI [of _ ?s], intro conjI impI, rule simple, rule skeys, rule sall, erule sentry)
  show ?thesis
    using none r0 D S by (intro conjI)
qed

theorem item_without_fields_witness:
  "getFieldValue asciiToLowerCase fieldlessItem ''region'' = None
    \<and> (\<exists>d. getConfig asciiToLowerCase exampleGet ''Fieldless'' exampleKeyOptions
               (Some \<lparr>detailedResult = Some True\<rparr>) = Inr (DetailedConfig d)
          \<and> fst ` set d = fst ` set exampleKeyOptions - {''__proto__''}
          \<and> map_of d ''bucket'' =
               Some \<lparr>res_value = Some ''dev-bucket'', matched = False, res_description = None\<rparr>)
    \<and> (\<exists>s. getConfig asciiToLowerCase exampleGet ''Fieldless'' exampleKeyOptions None
               = Inr (SimpleConfig s)
          \<and> fst ` set s = fst ` set exampleKeyOptions - {''__proto__''}
          \<and> map_of s ''bucket'' = Some (Some ''dev-bucket''))"
proof -
  have h1: "exampleGet ''Fieldless'' = Resolved (Some fieldlessItem)"
    by (simp add: exampleGet_def)
  have h2: "item_id fieldlessItem = Some ''abc123''"
    by (simp add: fieldlessItem_def)
  have h3: "''abc123'' \<noteq> []"
    by simp
  have h4: "item_fields fieldlessItem = None"
    by (simp add: fieldlessItem_def)
  have h5: "Some ''dev-bucket'' =
      (case SpecValue \<lparr>spec_key = None, spec_default = Some ''dev-bucket'', spec_description = None\<rparr> of
         StringValue s \<Rightarrow> None | SpecValue sp \<Rightarrow> spec_default sp)"
    by simp
  have h6: "None =
      (case SpecValue \<lparr>spec_key = None, spec_default = Some ''dev-bucket'', spec_description = None\<rparr> of
         StringValue s \<Rightarrow> Some s | SpecValue sp \<Rightarrow> spec_description sp)"
    by simp
  have h7: "(''bucket'',
        SpecValue \<lparr>spec_key = None, spec_default = Some ''dev-bucket'', spec_description = None\<rparr>)
      \<in> set exampleKeyOptions \<and> distinct (map fst exampleKeyOptions)
      \<and> ''bucket'' \<noteq> ''__proto__''"
    by (simp add: exampleKeyOptions_def)
  note t = item_without_fields
          [where toLowerCase = asciiToLowerCase and onePItem_get = exampleGet
             and idOrName = "''Fieldless''" and keyOptions = exampleKeyOptions
             and k = "''region''" and configKey = "''bucket''", OF h1 h2 h3 h4 h5 h6]
  have a: "getFieldValue asciiToLowerCase fieldlessItem ''region'' = None"
    using t by (rule conjunct1)
  from t [THEN conjunct2, THEN conjunct2, THEN conjunct1]
  obtain d where d: "getConfig asciiToLowerCase exampleGet ''Fieldless'' exampleKeyOptions
               (Some \<lparr>detailedResult = Some True\<rparr>) = Inr (DetailedConfig d)"
      "fst ` set d = fst ` set exampleKeyOptions - {''__proto__''}"
    and dentry: "(''bucket'',
        SpecValue \<lparr>spec_key = None, spec_default = Some ''dev-bucket'', spec_description = None\<rparr>)
      \<in> set exampleKeyOptions \<and> distinct (map fst exampleKeyOptions)
      \<and> ''bucket'' \<noteq> ''__proto__'' \<longrightarrow>
      map_of d ''bucket'' =
         Some \<lparr>res_value = Some ''dev-bucket'', matched = False, res_description = None\<rparr>"
    by (elim exE conjE) (rule that, assumption+)
  from t [THEN conjunct2, THEN conjunct2, THEN conjunct2]
  obtain s where s: "getConfig asciiToLowerCase exampleGet ''Fieldless'' exampleKeyOptions None
               = Inr (SimpleConfig s)"
      "fst ` set s = fst ` set exampleKeyOptions - {''__proto__''}"
    and sentry: "(''bucket'',
        SpecValue \<lparr>spec_key = None, spec_default = Some ''dev-bucket'', spec_description = None\<rparr>)
      \<in> set exampleKeyOptions \<and> distinct (map fst exampleKeyOptions)
      \<and> ''bucket'' \<noteq> ''__proto__'' \<longrightarrow>
      map_of s ''bucket'' = Some (Some ''dev-bucket'')"
    by (elim exE conjE) (rule that, assumption+)
  have D: "\<exists>d. getConfig asciiToLowerCase exampleGet ''Fieldless'' exampleKeyOptions
               (Some \<lparr>detailedResult = Some True\<rparr>) = Inr (DetailedConfig d)
          \<and> fst ` set d = fst ` set exampleKeyOptions - {''__proto__''}
          \<and> map_of d ''bucket'' =
               Some \<lparr>res_value = Some ''dev-bucket'', matched = False, res_description = None\<rparr>"
    by (rule exI [of _ d], intro conjI, rule d(1), rule d(2), rule dentry [THEN mp, OF h7])
  have S: "\<exists>s. getConfig asciiToLowerCase exampleGet ''Fieldless'' exampleKeyOptions None
               = Inr (SimpleConfig s)
          \<and> fst ` set s = fst ` set exampleKeyOptions - {''__proto__''}
          \<and> map_of s ''bucket'' = Some (Some ''dev-bucket'')"
    by (rule exI [of _ s], intro conjI, rule s(1), rule s(2), rule sentry [THEN mp, OF h7])
  show ?thesis
    by (intro conjI, rule a, rule D, rule S)
qed

section \<open>Descriptions have no effect\<close>

lemma resolveField_sameButDescription:
  assumes "sameButDescription v1 v2"
  shows "res_value (resolveField toLowerCase item k v1) = res_value (resolveField toLowerCase item k v2)
    \<and> matched (resolveField toLowerCase item k v1) = matched (resolveField toLowerCase item k v2)"
proof -
  have "fieldKey k v1 = fieldKey k v2" and "defaultValue v1 = defaultValue v2"
    using assms by (cases v1; cases v2; simp add: fieldKey_def defaultValue_def)+
  then show ?thesis by (simp add: resolveField_def Let_def)
qed

lemma update_map_values:
  "map (\<lambda>(k, v). (k, h v)) (AList.update k v al) = AList.update k (h v) (map (\<lambda>(k, v). (k, h v)) al)"
  by (induction al) auto

lemma setProperty_map_values:
  "map (\<lambda>(k, v). (k, h v)) (setProperty k v obj) = setProperty k (h v) (map (\<lambda>(k, v). (k, h v)) obj)"
  by (simp add: setProperty_def update_map_values)

lemma assign_all_map_values:
  "map (\<lambda>(k, v). (k, h v)) (fold (\<lambda>(k, x). setProperty k (g k x)) kvs acc) =
     fold (\<lambda>(k, x). setProperty k (h (g k x))) kvs (map (\<lambda>(k, v). (k, h v)) acc)"
proof (induction kvs arbitrary: acc)
  case Nil
  then show ?case by simp
next
  case (Cons p kvs)
  obtain k x where p: "p = (k, x)" by (cases p)
  show ?case
    using Cons.IH [of "setProperty k (g k x) acc"]
    by (simp add: p setProperty_map_values)
qed

lemma assign_all_cong:
  "list_all2 (\<lambda>(k1, x1) (k2, x2). k1 = k2 \<and> g1 k1 x1 = g2 k2 x2) kvs1 kvs2 \<Longrightarrow>
   fold (\<lambda>(k, x). setProperty k (g1 k x)) kvs1 acc = fold (\<lambda>(k, x). setProperty k (g2 k x)) kvs2 acc"
proof (induction kvs1 kvs2 arbitrary: acc rule: list_all2_induct)
  case Nil
  then show ?case by simp
next
  case (Cons p1 kvs1 p2 kvs2)
  then show ?case by (cases p1; cases p2) auto
qed

lemma resolveAll_sameButDescription:
  assumes "list_all2 (\<lambda>(k1, v1) (k2, v2). k1 = k2 \<and> sameButDescription v1 v2) ko1 ko2"
  shows "map (\<lambda>(k, r). (k, res_value r, matched r)) (resolveAll toLowerCase item ko1) =
         map (\<lambda>(k, r). (k, res_value r, matched r)) (resolveAll toLowerCase item ko2)"
proof -
  let ?h = "\<lambda>r. (res_value r, matched r)"
  have rel: "list_all2 (\<lambda>(k1, x1) (k2, x2). k1 = k2
                \<and> ?h (resolveField toLowerCase item k1 x1) = ?h (resolveField toLowerCase item k2 x2)) ko1 ko2"
    using assms
    by (rule list_all2_mono) (auto dest: resolveField_sameButDescription [where item = item])
  have "map (\<lambda>(k, r). (k, ?h r)) (resolveAll toLowerCase item ko1) =
        fold (\<lambda>(k, x). setProperty k (?h (resolveField toLowerCase item k x))) ko1 []"
    unfolding resolveAll_def
    using assign_all_map_values [of ?h "resolveField toLowerCase item" ko1 "[]"] by simp
  also have "\<dots> = fold (\<lambda>(k, x). setProperty k (?h (resolveField toLowerCase item k x))) ko2 []"
    using rel by (rule assign_all_cong [where ?g1.0 = "\<lambda>k x. ?h (resolveField toLowerCase item k x)"
                                          and ?g2.0 = "\<lambda>k x. ?h (resolveField toLowerCase item k x)"])
  also have "\<dots> = map (\<lambda>(k, r). (k, ?h r)) (resolveAll toLowerCase item ko2)"
    unfolding resolveAll_def
    using assign_all_map_values [of ?h "resolveField toLowerCase item" ko2 "[]"] by simp
  finally show ?thesis by simp
qed

text \<open>
  C8. For two field maps with the same keys in the same order whose specifications agree
  on \<^verbatim>\<open>key\<close> and \<^verbatim>\<open>default\<close> entry by entry, the detailed results have the same keys
  with the same values and matched flags, and the simple results are equal.
\<close>

theorem description_has_no_effect:
  assumes same: "list_all2 (\<lambda>(k1, v1) (k2, v2). k1 = k2 \<and> sameButDescription v1 v2)
                   keyOptions1 keyOptions2"
    and fetched: "onePItem_get idOrName = Resolved (Some item)"
    and ident: "item_id item = Some i" "i \<noteq> []"
    and simple: "options \<in> {None, Some \<lparr>detailedResult = None\<rparr>, Some \<lparr>detailedResult = Some False\<rparr>}"
  shows "(\<exists>d1 d2.
            getConfig toLowerCase onePItem_get idOrName keyOptions1 (Some \<lparr>detailedResult = Some True\<rparr>)
              = Inr (DetailedConfig d1)
          \<and> getConfig toLowerCase onePItem_get idOrName keyOptions2 (Some \<lparr>detailedResult = Some True\<rparr>)
              = Inr (DetailedConfig d2)
          \<and> map (\<lambda>(k, r). (k, res_value r, matched r)) d1
              = map (\<lambda>(k, r). (k, res_value r, matched r)) d2)
    \<and> (\<exists>s. getConfig toLowerCase onePItem_get idOrName keyOptions1 options = Inr (SimpleConfig s)
          \<and> getConfig toLowerCase onePItem_get idOrName keyOptions2 options = Inr (SimpleConfig s))"
proof -
  have d: "getConfig toLowerCase onePItem_get idOrName ko (Some \<lparr>detailedResult = Some True\<rparr>)
      = Inr (DetailedConfig (resolveAll toLowerCase item ko))" for ko
    using fetched ident by (rule getConfig_detailed)
  have s: "getConfig toLowerCase onePItem_get idOrName ko options
      = Inr (SimpleConfig (map (\<lambda>(k, r). (k, res_value r)) (resolveAll toLowerCase item ko)))" for ko
    using fetched ident simple by (rule getConfig_simple)
  have eq: "map (\<lambda>(k, r). (k, res_value r, matched r)) (resolveAll toLowerCase item keyOptions1) =
         map (\<lambda>(k, r). (k, res_value r, matched r)) (resolveAll toLowerCase item keyOptions2)"
    using same by (rule resolveAll_sameButDescription)
  have proj: "map (\<lambda>(k, r). (k, res_value r)) xs
      = map (\<lambda>(k, v, m). (k, v)) (map (\<lambda>(k, r). (k, res_value r, matched r)) xs)" for xs
    by (simp add: split_def)
  have eqs: "map (\<lambda>(k, r). (k, res_value r)) (resolveAll toLowerCase item keyOptions1)
      = map (\<lambda>(k, r). (k, res_value r)) (resolveAll toLowerCase item keyOptions2)"
    by (simp only: proj eq)
  have detailed: "\<exists>d1 d2.
            getConfig toLowerCase onePItem_get idOrName keyOptions1 (Some \<lparr>detailedResult = Some True\<rparr>)
              = Inr (DetailedConfig d1)
          \<and> getConfig toLowerCase onePItem_get idOrName keyOptions2 (Some \<lparr>detailedResult = Some True\<rparr>)
              = Inr (DetailedConfig d2)
          \<and> map (\<lambda>(k, r). (k, res_value r, matched r)) d1
              = map (\<lambda>(k, r). (k, res_value r, matched r)) d2"
    by (intro exI conjI, rule d, rule d, rule eq)
  have s2: "getConfig toLowerCase onePItem_get idOrName keyOptions2 options
      = Inr (SimpleConfig (map (\<lambda>(k, r). (k, res_value r)) (resolveAll toLowerCase item keyOptions1)))"
    by (simp only: s eqs)
  have simple: "\<exists>s. getConfig toLowerCase onePItem_get idOrName keyOptions1 options = Inr (SimpleConfig s)
          \<and> getConfig toLowerCase onePItem_get idOrName keyOptions2 options = Inr (SimpleConfig s)"
    by (intro exI conjI, rule s, rule s2)
  show ?thesis
    using detailed simple by (rule conjI)
qed

theorem description_has_no_effect_witness:
  "(\<exists>d1 d2.
            getConfig asciiToLowerCase exampleGet ''My OSS Config'' exampleKeyOptions (Some \<lparr>detailedResult = Some True\<rparr>)
              = Inr (DetailedConfig d1)
          \<and> getConfig asciiToLowerCase exampleGet ''My OSS Config'' redescribedKeyOptions
                (Some \<lparr>detailedResult = Some True\<rparr>)
              = Inr (DetailedConfig d2)
          \<and> map (\<lambda>(k, r). (k, res_value r, matched r)) d1
              = map (\<lambda>(k, r). (k, res_value r, matched r)) d2)
    \<and> (\<exists>s. getConfig asciiToLowerCase exampleGet ''My OSS Config'' exampleKeyOptions None = Inr (SimpleConfig s)
          \<and> getConfig asciiToLowerCase exampleGet ''My OSS Config'' redescribedKeyOptions None = Inr (SimpleConfig s))"
proof -
  have h1: "list_all2 (\<lambda>(k1, v1) (k2, v2). k1 = k2 \<and> sameButDescription v1 v2)
              exampleKeyOptions redescribedKeyOptions"
    by (simp add: exampleKeyOptions_def redescribedKeyOptions_def)
  have h2: "exampleGet ''My OSS Config'' = Resolved (Some exampleItem)"
    by (simp add: exampleGet_def)
  have h3: "item_id exampleItem = Some ''abc123''"
    by (simp add: exampleItem_def)
  have h4: "''abc123'' \<noteq> []"
    by simp
  have h5: "None \<in> {None, Some \<lparr>detailedResult = None\<rparr>, Some \<lparr>detailedResult = Some False\<rparr>}"
    by simp
  show ?thesis
    by (rule description_has_no_effect
          [where toLowerCase = asciiToLowerCase and onePItem_get = exampleGet and idOrName = "''My OSS Config''",
           OF h1 h2 h3 h4 h5])
qed

end
